theory Spec2Isabelle
  imports Main "HOL-Library.Word" "HOL-Library.Monad_Syntax"
begin

unbundle bit_operations_syntax

section \<open>C strings\<close>

text \<open>
  Bytes are \<^typ>\<open>char\<close>, buffers are \<^typ>\<open>string\<close>. A C string literal occupies its
  characters followed by one terminating zero byte. A \<open>z_owned_string_t\<close> is a buffer
  together with its length and carries no terminator: \<open>z_string_data\<close> is the list and
  \<open>z_string_len\<close> its length.
\<close>

definition NUL :: char where
  "NUL = CHR 0x00"

definition c_str :: "string \<Rightarrow> string" where
  "c_str lit = lit @ [NUL]"

text \<open>
  \<open>strncmp(s1, s2, n)\<close> of the C library: compares at most \<open>n\<close> bytes, as unsigned
  chars, and stops after a zero byte that both buffers share. The buffers are given
  with their real extent; \<open>None\<close> is a read beyond the end of one of them.
\<close>

fun strncmp :: "string \<Rightarrow> string \<Rightarrow> nat \<Rightarrow> int option" where
  "strncmp s1 s2 0 = Some 0"
| "strncmp [] s2 (Suc n) = None"
| "strncmp (a # s1) [] (Suc n) = None"
| "strncmp (a # s1) (b # s2) (Suc n) =
     (if a \<noteq> b then Some (of_char a - of_char b)
      else if a = NUL then Some 0
      else strncmp s1 s2 n)"

section \<open>Inbound samples and their classification\<close>

record z_sample =
  z_sample_keyexpr :: string
  z_sample_payload :: string
  z_sample_encoding :: string
  z_sample_attachment :: "string option"
  z_sample_timestamp :: "64 word option"

datatype signal_type_t =
  SIGNAL_TYPE_CURRENT_VALUE
| SIGNAL_TYPE_TARGET_VALUE
| SIGNAL_TYPE_UNKNOWN

text \<open>The log lines of \<open>main.c\<close>, one constructor per call site, with the arguments passed.\<close>

datatype log_msg =
  LOG_regex_compile_error
| LOG_regex_match_error
| LOG_publishing
| LOG_published
| LOG_with_attachment string
| LOG_received string string
| LOG_with_encoding string
| LOG_with_timestamp "64 word"
| LOG_discarding_current_value
| LOG_received_target_value
| LOG_turning_on_led
| LOG_turning_off_led
| LOG_unknown_value string
| LOG_connecting_wifi
| LOG_dot
| LOG_wifi_established
| LOG_invalid_locator
| LOG_opening_session
| LOG_unable_to_open_session
| LOG_session_opened
| LOG_declaring_subscriber string
| LOG_unable_to_declare_subscriber
| LOG_declaring_publisher string
| LOG_unable_to_declare_publisher
| LOG_ok

text \<open>What the program does to the outside world, in the order it does it.\<close>

datatype effect =
  ESP_LOG log_msg
| Gpio_reset_pin nat
| Gpio_set_direction_output nat
| Gpio_set_level nat nat
| Z_publisher_put string string string
| Esp_wifi_connect
| Zp_config_insert string string
| Z_open
| Zp_start_tasks
| Z_declare_subscriber string
| Z_declare_publisher string

text \<open>
  \<open>attachment_handler\<close> returns the classification and the log line it wrote. With no
  attachment nothing is logged. The sequence length read through the deserializer is
  never used and is left out.
\<close>

definition attachment_handler :: "z_sample \<Rightarrow> (signal_type_t \<times> effect list) option" where
  "attachment_handler sample =
     (case z_sample_attachment sample of
        None \<Rightarrow> Some (SIGNAL_TYPE_UNKNOWN, [])
      | Some attachment_str \<Rightarrow>
          (let logged = [ESP_LOG (LOG_with_attachment attachment_str)];
               data = attachment_str;
               len = length attachment_str
           in case strncmp data (c_str ''currentValue'') len of
                None \<Rightarrow> None
              | Some r1 \<Rightarrow>
                  if r1 = 0 then Some (SIGNAL_TYPE_CURRENT_VALUE, logged)
                  else (case strncmp data (c_str ''targetValue'') len of
                          None \<Rightarrow> None
                        | Some r2 \<Rightarrow>
                            if r2 = 0 then Some (SIGNAL_TYPE_TARGET_VALUE, logged)
                            else Some (SIGNAL_TYPE_UNKNOWN, logged))))"

definition classification :: "z_sample \<Rightarrow> signal_type_t option" where
  "classification sample = map_option fst (attachment_handler sample)"

definition sample_with_tag :: "string option \<Rightarrow> z_sample" where
  "sample_with_tag tag =
     \<lparr> z_sample_keyexpr = ''Vehicle/Body/Horn/IsActive'', z_sample_payload = ''true'',
       z_sample_encoding = ''zenoh/string;utf8'', z_sample_attachment = tag,
       z_sample_timestamp = None \<rparr>"

section \<open>Program state\<close>

text \<open>
  The statics of \<open>main.c\<close>, the event group, the levels of the GPIO pins and the
  effects performed so far. The level of the LED pin is the actuator output state.
\<close>

record state =
  s_is_wifi_connected :: bool
  s_retry_count :: "32 word"
  event_group_bits :: "32 word"
  gpio_level :: "nat \<Rightarrow> nat"
  trace :: "effect list"

definition initial_state :: state where
  "initial_state =
     \<lparr> s_is_wifi_connected = False, s_retry_count = 0, event_group_bits = 0,
       gpio_level = (\<lambda>_. 0), trace = [] \<rparr>"

definition emit :: "effect list \<Rightarrow> state \<Rightarrow> state" where
  "emit es st = st\<lparr>trace := trace st @ es\<rparr>"

definition gpio_set_level :: "nat \<Rightarrow> nat \<Rightarrow> state \<Rightarrow> state" where
  "gpio_set_level pin level st =
     st\<lparr>gpio_level := (gpio_level st)(pin := level),
        trace := trace st @ [Gpio_set_level pin level]\<rparr>"

text \<open>\<open>config.h\<close>: the values that come from the project configuration are fields.\<close>

record config =
  ESP_MAXIMUM_RETRY :: "32 word"
  MODE :: string
  LOCATOR :: string

definition KEYEXPR :: string where
  "KEYEXPR = ''Vehicle/Body/Horn/IsActive''"

definition LED_GPIO :: nat where
  "LED_GPIO = 25"

definition WIFI_CONNECTED_BIT :: "32 word" where
  "WIFI_CONNECTED_BIT = 1"

section \<open>Confirmation publish and the receive callback\<close>

text \<open>
  \<open>pub_status\<close>: \<open>snprintf\<close> into a zeroed 32-byte buffer keeps at most 31 bytes of the
  C string \<open>value\<close>; the payload is that buffer up to its terminator.
\<close>

definition pub_status :: "string \<Rightarrow> effect list" where
  "pub_status v =
     (let attachment_payload = ''currentValue'';
          buffer = take 31 (takeWhile (\<lambda>c. c \<noteq> NUL) v)
      in [ESP_LOG LOG_publishing,
          Z_publisher_put buffer attachment_payload ''zenoh/string;utf8'',
          ESP_LOG LOG_published])"

definition data_handler :: "z_sample \<Rightarrow> state \<Rightarrow> state option" where
  "data_handler sample st =
     (let keystr = z_sample_keyexpr sample;
          v = z_sample_payload sample;
          encoding = z_sample_encoding sample;
          st1 = emit [ESP_LOG (LOG_received keystr v), ESP_LOG (LOG_with_encoding encoding)] st;
          st2 = (case z_sample_timestamp sample of
                   None \<Rightarrow> st1
                 | Some ts \<Rightarrow> emit [ESP_LOG (LOG_with_timestamp ts)] st1)
      in do {
        (signal_type, logged) \<leftarrow> attachment_handler sample;
        let st3 = emit logged st2;
        let st4 = (if signal_type = SIGNAL_TYPE_CURRENT_VALUE
                   then emit [ESP_LOG LOG_discarding_current_value] st3 else st3);
        if signal_type = SIGNAL_TYPE_TARGET_VALUE then do {
          let st5 = emit [ESP_LOG LOG_received_target_value] st4;
          let value_data = v;
          let value_len = length v;
          is_true \<leftarrow> (if value_len = 4
                      then map_option (\<lambda>r. r = 0) (strncmp value_data (c_str ''true'') 4)
                      else Some False);
          if is_true then
            Some (emit (pub_status ''true'')
                   (gpio_set_level LED_GPIO 1 (emit [ESP_LOG LOG_turning_on_led] st5)))
          else do {
            is_false \<leftarrow> (if value_len = 5
                         then map_option (\<lambda>r. r = 0) (strncmp value_data (c_str ''false'') 5)
                         else Some False);
            if is_false then
              Some (emit (pub_status ''false'')
                     (gpio_set_level LED_GPIO 0 (emit [ESP_LOG LOG_turning_off_led] st5)))
            else Some (emit [ESP_LOG (LOG_unknown_value value_data)] st5)
          }
        } else Some st4
      })"

text \<open>What an observer of the device sees: the output level and the messages put on the bus.\<close>

definition output_state :: "state \<Rightarrow> bool" where
  "output_state st = (gpio_level st LED_GPIO \<noteq> 0)"

fun is_publish :: "effect \<Rightarrow> bool" where
  "is_publish (Z_publisher_put p a e) = True"
| "is_publish _ = False"

definition published :: "state \<Rightarrow> effect list" where
  "published st = filter is_publish (trace st)"

fun is_actuation :: "effect \<Rightarrow> bool" where
  "is_actuation (Gpio_set_level pin level) = True"
| "is_actuation (Z_publisher_put p a e) = True"
| "is_actuation _ = False"

definition actuations :: "state \<Rightarrow> effect list" where
  "actuations st = filter is_actuation (trace st)"

definition bool_literal :: "bool \<Rightarrow> string" where
  "bool_literal b = (if b then ''true'' else ''false'')"

section \<open>Connectivity events\<close>

datatype esp_event_base_t = WIFI_EVENT | IP_EVENT

text \<open>The event identifiers, with the values the ESP-IDF headers give them.\<close>

definition WIFI_EVENT_STA_START :: int where
  "WIFI_EVENT_STA_START = 2"

definition WIFI_EVENT_STA_DISCONNECTED :: int where
  "WIFI_EVENT_STA_DISCONNECTED = 5"

definition IP_EVENT_STA_GOT_IP :: int where
  "IP_EVENT_STA_GOT_IP = 0"

definition esp_wifi_connect :: "state \<Rightarrow> state" where
  "esp_wifi_connect st = emit [Esp_wifi_connect] st"

definition xEventGroupSetBits :: "32 word \<Rightarrow> state \<Rightarrow> state" where
  "xEventGroupSetBits bits st = st\<lparr>event_group_bits := event_group_bits st OR bits\<rparr>"

definition event_handler :: "config \<Rightarrow> esp_event_base_t \<Rightarrow> int \<Rightarrow> state \<Rightarrow> state" where
  "event_handler cfg event_base event_id st =
     (if event_base = WIFI_EVENT \<and> event_id = WIFI_EVENT_STA_START then
        esp_wifi_connect st
      else if event_base = WIFI_EVENT \<and> event_id = WIFI_EVENT_STA_DISCONNECTED then
        (if s_retry_count st <s ESP_MAXIMUM_RETRY cfg then
           (let st1 = esp_wifi_connect st
            in st1\<lparr>s_retry_count := s_retry_count st1 + 1\<rparr>)
         else st)
      else if event_base = IP_EVENT \<and> event_id = IP_EVENT_STA_GOT_IP then
        (let st1 = xEventGroupSetBits WIFI_CONNECTED_BIT st
         in st1\<lparr>s_retry_count := 0\<rparr>)
      else st)"

text \<open>The events the event loop hands to the handler, one after the other.\<close>

fun run_events :: "config \<Rightarrow> (esp_event_base_t \<times> int) list \<Rightarrow> state \<Rightarrow> state" where
  "run_events cfg [] st = st"
| "run_events cfg (e # es) st = run_events cfg es (event_handler cfg (fst e) (snd e) st)"

definition link_down :: "esp_event_base_t \<times> int" where
  "link_down = (WIFI_EVENT, WIFI_EVENT_STA_DISCONNECTED)"

definition link_up :: "esp_event_base_t \<times> int" where
  "link_up = (IP_EVENT, IP_EVENT_STA_GOT_IP)"

definition connect_attempts :: "state \<Rightarrow> nat" where
  "connect_attempts st = length (filter (\<lambda>e. e = Esp_wifi_connect) (trace st))"

definition retry_count_in_range :: "config \<Rightarrow> state \<Rightarrow> bool" where
  "retry_count_in_range cfg st =
     (0 \<le> sint (s_retry_count st) \<and> sint (s_retry_count st) \<le> sint (ESP_MAXIMUM_RETRY cfg))"

section \<open>Locator validation\<close>

text \<open>
  POSIX extended regular expressions as \<open>regcomp\<close> compiles them, and \<open>regexec\<close> by
  derivatives. A bracket expression is a list of byte ranges; a single character is the
  range from itself to itself.
\<close>

datatype ere =
  Fail
| Eps
| Bracket "(char \<times> char) list"
| Or ere ere
| Cat ere ere
| Rep ere

definition char_between :: "char \<Rightarrow> char \<Rightarrow> char \<Rightarrow> bool" where
  "char_between lo hi c = ((of_char lo :: nat) \<le> of_char c \<and> (of_char c :: nat) \<le> of_char hi)"

fun in_bracket :: "(char \<times> char) list \<Rightarrow> char \<Rightarrow> bool" where
  "in_bracket [] c = False"
| "in_bracket ((lo, hi) # rs) c = (char_between lo hi c \<or> in_bracket rs c)"

fun nullable :: "ere \<Rightarrow> bool" where
  "nullable Fail = False"
| "nullable Eps = True"
| "nullable (Bracket rs) = False"
| "nullable (Or r s) = (nullable r \<or> nullable s)"
| "nullable (Cat r s) = (nullable r \<and> nullable s)"
| "nullable (Rep r) = True"

fun step :: "char \<Rightarrow> ere \<Rightarrow> ere" where
  "step c Fail = Fail"
| "step c Eps = Fail"
| "step c (Bracket rs) = (if in_bracket rs c then Eps else Fail)"
| "step c (Or r s) = Or (step c r) (step c s)"
| "step c (Cat r s) =
     (if nullable r then Or (Cat (step c r) s) (step c s) else Cat (step c r) s)"
| "step c (Rep r) = Cat (step c r) (Rep r)"

fun accepts :: "ere \<Rightarrow> string \<Rightarrow> bool" where
  "accepts r [] = nullable r"
| "accepts r (c # cs) = accepts (step c r) cs"

fun literal :: "string \<Rightarrow> ere" where
  "literal [] = Eps"
| "literal (c # cs) = Cat (Bracket [(c, c)]) (literal cs)"

definition one_or_more :: "ere \<Rightarrow> ere" where
  "one_or_more r = Cat r (Rep r)"

definition one_to_three :: "ere \<Rightarrow> ere" where
  "one_to_three r = Cat r (Cat (Or Eps r) (Or Eps r))"

definition exactly_three :: "ere \<Rightarrow> ere" where
  "exactly_three r = Cat r (Cat r r)"

definition digit :: ere where
  "digit = Bracket [(CHR ''0'', CHR ''9'')]"

definition iface_char :: ere where
  "iface_char =
     Bracket [(CHR ''a'', CHR ''z''), (CHR ''A'', CHR ''Z''), (CHR ''0'', CHR ''9''),
              (CHR ''_'', CHR ''_''), (CHR ''-'', CHR ''-'')]"

text \<open>
  The pattern of \<open>is_valid_locator\<close>,
  \<^verbatim>\<open>^tcp/([0-9]{1,3}\.){3}[0-9]{1,3}:[0-9]+#iface=[a-zA-Z0-9_-]+$\<close>,
  between its two anchors. It is compiled with \<open>REG_EXTENDED | REG_NOSUB\<close> and without
  \<open>REG_NEWLINE\<close>, so the anchors are the two ends of the subject string and \<open>regexec\<close>
  succeeds exactly when the whole string is accepted by the body.
\<close>

definition locator_pattern :: ere where
  "locator_pattern =
     Cat (literal ''tcp/'')
       (Cat (exactly_three (Cat (one_to_three digit) (literal ''.'')))
         (Cat (one_to_three digit)
           (Cat (literal '':'')
             (Cat (one_or_more digit)
               (Cat (literal ''#iface='') (one_or_more iface_char))))))"

definition REG_NOMATCH :: int where
  "REG_NOMATCH = 1"

definition regexec :: "ere \<Rightarrow> string \<Rightarrow> int" where
  "regexec reg s = (if accepts reg s then 0 else REG_NOMATCH)"

text \<open>
  \<open>is_valid_locator\<close> returns its result and what it logged. \<open>regcomp\<close> returns 0 on
  the pattern, which is well formed; the branch for a failed compilation is kept.
\<close>

definition is_valid_locator :: "string \<Rightarrow> int \<times> effect list" where
  "is_valid_locator url =
     (let compile_status = (0 :: int);
          reg = locator_pattern
      in if compile_status \<noteq> 0 then (- 1, [ESP_LOG LOG_regex_compile_error])
         else (let result = regexec reg url
               in (result, if result \<noteq> 0 then [ESP_LOG LOG_regex_match_error] else [])))"

section \<open>Startup\<close>

text \<open>What the environment answers to the calls \<open>app_main\<close> makes.\<close>

record env =
  nvs_flash_init_ret :: int
  nvs_flash_erase_ret :: int
  nvs_flash_init_again_ret :: int
  wifi_setup_ok :: bool
  link_events :: "(esp_event_base_t \<times> int) list"
  wifi_teardown_ok :: bool
  z_open_ret :: int
  z_declare_subscriber_ret :: int
  z_declare_publisher_ret :: int

datatype outcome = Exit int | Abort | Blocked | Idle

definition ESP_OK :: int where
  "ESP_OK = 0"

definition ESP_ERR_NVS_NO_FREE_PAGES :: int where
  "ESP_ERR_NVS_NO_FREE_PAGES = 0x110d"

definition ESP_ERR_NVS_NEW_VERSION_FOUND :: int where
  "ESP_ERR_NVS_NEW_VERSION_FOUND = 0x1110"

definition gpio_init :: "state \<Rightarrow> state" where
  "gpio_init st = emit [Gpio_reset_pin LED_GPIO, Gpio_set_direction_output LED_GPIO] st"

text \<open>
  \<open>xEventGroupWaitBits\<close> with \<open>portMAX_DELAY\<close>: the events arrive at \<open>event_handler\<close>
  until the awaited bit is set. The result says whether the call returns, which it
  does not when the events end with the bit still clear, and gives the state reached.
\<close>

fun xEventGroupWaitBits ::
  "config \<Rightarrow> (esp_event_base_t \<times> int) list \<Rightarrow> 32 word \<Rightarrow> state \<Rightarrow> bool \<times> state" where
  "xEventGroupWaitBits cfg [] bits st = (event_group_bits st AND bits \<noteq> 0, st)"
| "xEventGroupWaitBits cfg (e # es) bits st =
     (if event_group_bits st AND bits \<noteq> 0 then (True, st)
      else xEventGroupWaitBits cfg es bits (event_handler cfg (fst e) (snd e) st))"

text \<open>
  \<open>wifi_init_sta\<close> returns the state it reached, with \<open>None\<close> when it returned to its
  caller and the outcome when it did not: an \<open>ESP_ERROR_CHECK\<close> aborted, or the wait
  for the connection never ended.
\<close>

definition wifi_init_sta :: "config \<Rightarrow> env \<Rightarrow> state \<Rightarrow> outcome option \<times> state" where
  "wifi_init_sta cfg env st =
     (let st1 = st\<lparr>event_group_bits := 0\<rparr>
      in if \<not> wifi_setup_ok env then (Some Abort, st1)
         else (let (returned, st2) =
                     xEventGroupWaitBits cfg (link_events env) WIFI_CONNECTED_BIT st1
               in if \<not> returned then (Some Blocked, st2)
                  else (let bits = event_group_bits st2;
                            st3 = (if bits AND WIFI_CONNECTED_BIT \<noteq> 0
                                   then st2\<lparr>s_is_wifi_connected := True\<rparr> else st2)
                        in if \<not> wifi_teardown_ok env then (Some Abort, st3)
                           else (None, st3))))"

text \<open>The wait loop of \<open>app_main\<close>; nothing inside it changes the flag it polls.\<close>

partial_function (option) wait_for_wifi :: "state \<Rightarrow> state option" where
  "wait_for_wifi st =
     (if \<not> s_is_wifi_connected st then wait_for_wifi (emit [ESP_LOG LOG_dot] st)
      else Some st)"

declare wait_for_wifi.simps [code]

definition app_main :: "config \<Rightarrow> env \<Rightarrow> outcome \<times> state" where
  "app_main cfg env =
     (let st0 = initial_state;
          ret = nvs_flash_init_ret env;
          erase = (ret = ESP_ERR_NVS_NO_FREE_PAGES \<or> ret = ESP_ERR_NVS_NEW_VERSION_FOUND)
      in if erase \<and> nvs_flash_erase_ret env \<noteq> ESP_OK then (Abort, st0)
         else if (if erase then nvs_flash_init_again_ret env else ret) \<noteq> ESP_OK
           then (Abort, st0)
         else (let st1 = emit [ESP_LOG LOG_connecting_wifi] st0
           in case wifi_init_sta cfg env st1 of
                (Some out, st2) \<Rightarrow> (out, st2)
              | (None, st2) \<Rightarrow>
           (case wait_for_wifi st2 of
                None \<Rightarrow> (Blocked, st2)
              | Some st3 \<Rightarrow>
           (let st4 = gpio_init (emit [ESP_LOG LOG_wifi_established] st3);
                st5 = emit [Zp_config_insert ''Z_CONFIG_MODE_KEY'' (MODE cfg)] st4;
                (valid, logged) = is_valid_locator (LOCATOR cfg);
                st6 = emit logged st5
            in if valid \<noteq> 0 then (Exit (- 1), emit [ESP_LOG LOG_invalid_locator] st6)
               else (let st7 =
                      (if LOCATOR cfg \<noteq> []
                       then (if MODE cfg = ''client''
                             then emit [Zp_config_insert ''Z_CONFIG_CONNECT_KEY'' (LOCATOR cfg)] st6
                             else emit [Zp_config_insert ''Z_CONFIG_LISTEN_KEY'' (LOCATOR cfg)] st6)
                       else st6);
                     st8 = emit [ESP_LOG LOG_opening_session, Z_open] st7
                 in if z_open_ret env < 0
                    then (Exit (- 1), emit [ESP_LOG LOG_unable_to_open_session] st8)
                    else (let st9 = emit [ESP_LOG LOG_session_opened, Zp_start_tasks,
                                          ESP_LOG (LOG_declaring_subscriber KEYEXPR),
                                          Z_declare_subscriber KEYEXPR] st8
                      in if z_declare_subscriber_ret env < 0
                         then (Exit (- 1), emit [ESP_LOG LOG_unable_to_declare_subscriber] st9)
                         else (let st10 = emit [ESP_LOG LOG_ok,
                                                ESP_LOG (LOG_declaring_publisher KEYEXPR),
                                                Z_declare_publisher KEYEXPR] st9
                           in if z_declare_publisher_ret env < 0
                              then (Exit (- 1),
                                    emit [ESP_LOG LOG_unable_to_declare_publisher] st10)
                              else (Idle, emit [ESP_LOG LOG_ok] st10))))))))"

fun is_transport :: "effect \<Rightarrow> bool" where
  "is_transport Z_open = True"
| "is_transport Zp_start_tasks = True"
| "is_transport (Z_declare_subscriber k) = True"
| "is_transport (Z_declare_publisher k) = True"
| "is_transport (Z_publisher_put p a e) = True"
| "is_transport _ = False"

section \<open>Observations used in the statements\<close>

text \<open>The confirmation message for an output state.\<close>

definition confirmation :: "bool \<Rightarrow> effect" where
  "confirmation b = Z_publisher_put (bool_literal b) ''currentValue'' ''zenoh/string;utf8''"

text \<open>Sample inputs.\<close>

definition sample_maybe :: z_sample where
  "sample_maybe = (sample_with_tag (Some ''targetValue''))\<lparr>z_sample_payload := ''maybe''\<rparr>"

definition sample_other_metadata :: z_sample where
  "sample_other_metadata =
     \<lparr> z_sample_keyexpr = ''Vehicle/Cabin/Light'', z_sample_payload = ''true'',
       z_sample_encoding = ''text/plain'', z_sample_attachment = Some ''targetValue'',
       z_sample_timestamp = Some 1700000000 \<rparr>"

text \<open>A configuration of the kind the project menu produces.\<close>

definition example_config :: config where
  "example_config =
     \<lparr> ESP_MAXIMUM_RETRY = 5, MODE = ''client'',
       LOCATOR = ''tcp/192.168.1.10:7447#iface=eth0'' \<rparr>"

section \<open>The shape the specification requires of a locator\<close>

text \<open>
  Written from the specification's pattern
  \<^verbatim>\<open>^tcp/(\d{1,3}\.){3}\d{1,3}:\d+#iface=[A-Za-z0-9_-]+$\<close>,
  to be compared with \<open>is_valid_locator\<close>: the whole string is \<open>tcp/\<close>, four groups of
  one to three digits separated by dots, a colon, at least one digit, \<open>#iface=\<close>, and at
  least one letter, digit, underscore or hyphen.
\<close>

definition is_digit :: "char \<Rightarrow> bool" where
  "is_digit c = char_between (CHR ''0'') (CHR ''9'') c"

definition is_iface_char :: "char \<Rightarrow> bool" where
  "is_iface_char c =
     (char_between (CHR ''A'') (CHR ''Z'') c \<or> char_between (CHR ''a'') (CHR ''z'') c
      \<or> is_digit c \<or> c = CHR ''_'' \<or> c = CHR ''-'')"

definition digits_1_3 :: "string \<Rightarrow> bool" where
  "digits_1_3 s = (1 \<le> length s \<and> length s \<le> 3 \<and> list_all is_digit s)"

definition spec_locator :: "string \<Rightarrow> bool" where
  "spec_locator url =
     (\<exists>a b c d port iface.
        url = ''tcp/'' @ a @ ''.'' @ b @ ''.'' @ c @ ''.'' @ d @ '':'' @ port
                @ ''#iface='' @ iface
        \<and> digits_1_3 a \<and> digits_1_3 b \<and> digits_1_3 c \<and> digits_1_3 d
        \<and> port \<noteq> [] \<and> list_all is_digit port
        \<and> iface \<noteq> [] \<and> list_all is_iface_char iface)"

section \<open>The language of an expression\<close>

text \<open>The set of strings an expression denotes, against which \<open>accepts\<close> is verified.\<close>

definition cat_lang :: "string set \<Rightarrow> string set \<Rightarrow> string set" where
  "cat_lang A B = {u @ v | u v. u \<in> A \<and> v \<in> B}"

inductive_set star_lang :: "string set \<Rightarrow> string set" for A :: "string set" where
  star_nil: "[] \<in> star_lang A"
| star_app: "u \<in> A \<Longrightarrow> v \<in> star_lang A \<Longrightarrow> u @ v \<in> star_lang A"

fun lang :: "ere \<Rightarrow> string set" where
  "lang Fail = {}"
| "lang Eps = {[]}"
| "lang (Bracket rs) = {[c] | c. in_bracket rs c}"
| "lang (Or r s) = lang r \<union> lang s"
| "lang (Cat r s) = cat_lang (lang r) (lang s)"
| "lang (Rep r) = star_lang (lang r)"

section \<open>Observations of startup\<close>

text \<open>The effects of the link phase, and the calls into the transport.\<close>

fun is_link_effect :: "effect \<Rightarrow> bool" where
  "is_link_effect (ESP_LOG m) = True"
| "is_link_effect Esp_wifi_connect = True"
| "is_link_effect _ = False"

definition transport_calls :: "state \<Rightarrow> effect list" where
  "transport_calls st = filter is_transport (trace st)"

text \<open>
  An environment in which every call succeeds and the link comes up after one
  disconnection, and two configurations whose locators the validator rejects.
\<close>

definition example_env :: env where
  "example_env =
     \<lparr> nvs_flash_init_ret = 0, nvs_flash_erase_ret = 0, nvs_flash_init_again_ret = 0,
       wifi_setup_ok = True,
       link_events = [(WIFI_EVENT, WIFI_EVENT_STA_START), link_down, link_up],
       wifi_teardown_ok = True,
       z_open_ret = 0, z_declare_subscriber_ret = 0, z_declare_publisher_ret = 0 \<rparr>"

definition invalid_locator_config :: config where
  "invalid_locator_config = example_config\<lparr>LOCATOR := ''tcp/192.168.1.10:7447''\<rparr>"

definition empty_locator_config :: config where
  "empty_locator_config = example_config\<lparr>LOCATOR := []\<rparr>"


section \<open>The receive callback\<close>

lemma strncmp_in_bounds:
  "n \<le> length s1 \<Longrightarrow> NUL \<in> set s2 \<Longrightarrow> \<exists>r. strncmp s1 s2 n = Some r"
proof (induction s1 s2 n rule: strncmp.induct)
  case (4 a s1 b s2 n)
  then show ?case by auto
qed auto

lemma strncmp_literal_returns: "\<exists>r. strncmp s (c_str lit) (length s) = Some r"
  by (rule strncmp_in_bounds) (simp_all add: c_str_def)

lemma attachment_handler_returns: "\<exists>r. attachment_handler sample = Some r"
proof (cases "z_sample_attachment sample")
  case None
  then show ?thesis by (simp add: attachment_handler_def)
next
  case (Some a)
  obtain r1 where r1: "strncmp a (c_str ''currentValue'') (length a) = Some r1"
    using strncmp_literal_returns by blast
  obtain r2 where r2: "strncmp a (c_str ''targetValue'') (length a) = Some r2"
    using strncmp_literal_returns by blast
  show ?thesis using Some r1 r2 by (simp add: attachment_handler_def Let_def)
qed

lemma strncmp_zero_Cons:
  "map_option (\<lambda>r. r = 0) (strncmp (a # s1) (b # s2) (Suc n)) =
     (if a \<noteq> b then Some False
      else if a = NUL then Some True
      else map_option (\<lambda>r. r = 0) (strncmp s1 s2 n))"
  by (simp add: of_char_eq_iff)

lemma strncmp_true:
  assumes "length v = 4"
  shows "map_option (\<lambda>r. r = 0) (strncmp v (c_str ''true'') 4) = Some (v = ''true'')"
proof -
  obtain a b c d where v: "v = [a, b, c, d]"
    using assms by (auto simp: length_Suc_conv numeral_eq_Suc)
  show ?thesis
    unfolding v by (auto simp add: strncmp_zero_Cons c_str_def NUL_def numeral_eq_Suc simp del: strncmp.simps(4))
qed

lemma strncmp_false:
  assumes "length v = 5"
  shows "map_option (\<lambda>r. r = 0) (strncmp v (c_str ''false'') 5) = Some (v = ''false'')"
proof -
  obtain a b c d e where v: "v = [a, b, c, d, e]"
    using assms by (auto simp: length_Suc_conv numeral_eq_Suc)
  show ?thesis
    unfolding v by (auto simp add: strncmp_zero_Cons c_str_def NUL_def numeral_eq_Suc simp del: strncmp.simps(4))
qed

lemma is_true_test:
  "(if length v = 4 then map_option (\<lambda>r. r = 0) (strncmp v (c_str ''true'') 4) else Some False)
     = Some (v = ''true'')"
  using strncmp_true [of v] by auto

lemma is_false_test:
  "(if length v = 5 then map_option (\<lambda>r. r = 0) (strncmp v (c_str ''false'') 5) else Some False)
     = Some (v = ''false'')"
  using strncmp_false [of v] by auto

text \<open>The callback, with the two payload tests decided.\<close>

lemma data_handler_unfold:
  assumes "attachment_handler sample = Some (signal_type, logged)"
  shows "data_handler sample st =
    (let v = z_sample_payload sample;
         st1 = emit [ESP_LOG (LOG_received (z_sample_keyexpr sample) v),
                     ESP_LOG (LOG_with_encoding (z_sample_encoding sample))] st;
         st2 = (case z_sample_timestamp sample of
                  None \<Rightarrow> st1
                | Some ts \<Rightarrow> emit [ESP_LOG (LOG_with_timestamp ts)] st1);
         st3 = emit logged st2;
         st4 = (if signal_type = SIGNAL_TYPE_CURRENT_VALUE
                then emit [ESP_LOG LOG_discarding_current_value] st3 else st3);
         st5 = emit [ESP_LOG LOG_received_target_value] st4
     in if signal_type = SIGNAL_TYPE_TARGET_VALUE then
          (if v = ''true'' then
             Some (emit (pub_status ''true'')
                    (gpio_set_level LED_GPIO 1 (emit [ESP_LOG LOG_turning_on_led] st5)))
           else if v = ''false'' then
             Some (emit (pub_status ''false'')
                    (gpio_set_level LED_GPIO 0 (emit [ESP_LOG LOG_turning_off_led] st5)))
           else Some (emit [ESP_LOG (LOG_unknown_value v)] st5))
        else Some st4)"
  unfolding data_handler_def Let_def
  by (simp add: assms is_true_test is_false_test del: strncmp.simps)


lemma attachment_handler_logs_only:
  assumes "attachment_handler sample = Some (signal_type, logged)"
  shows "filter is_actuation logged = [] \<and> filter is_publish logged = []"
  using assms
  by (auto simp: attachment_handler_def Let_def split: option.splits if_splits)

lemma actuations_emit: "actuations (emit es st) = actuations st @ filter is_actuation es"
  by (simp add: actuations_def emit_def)

lemma published_emit: "published (emit es st) = published st @ filter is_publish es"
  by (simp add: published_def emit_def)

lemma actuations_gpio_set_level:
  "actuations (gpio_set_level pin level st) = actuations st @ [Gpio_set_level pin level]"
  by (simp add: actuations_def gpio_set_level_def)

lemma published_gpio_set_level: "published (gpio_set_level pin level st) = published st"
  by (simp add: published_def gpio_set_level_def)

lemma gpio_level_emit: "gpio_level (emit es st) = gpio_level st"
  by (simp add: emit_def)

lemma gpio_level_gpio_set_level:
  "gpio_level (gpio_set_level pin level st) = (gpio_level st)(pin := level)"
  by (simp add: gpio_set_level_def)

lemma pub_status_literal:
  "filter is_actuation (pub_status (bool_literal b)) = [confirmation b]"
  "filter is_publish (pub_status (bool_literal b)) = [confirmation b]"
  by (simp_all add: pub_status_def bool_literal_def confirmation_def NUL_def)

lemma data_handler_actuates:
  assumes "attachment_handler sample = Some (SIGNAL_TYPE_TARGET_VALUE, logged)"
      and "z_sample_payload sample = bool_literal b"
  shows "\<exists>st'. data_handler sample st = Some st'
           \<and> gpio_level st' = (gpio_level st)(LED_GPIO := (if b then 1 else 0))
           \<and> actuations st' =
               actuations st @ [Gpio_set_level LED_GPIO (if b then 1 else 0), confirmation b]
           \<and> published st' = published st @ [confirmation b]"
proof -
  note quiet = attachment_handler_logs_only [OF assms(1)]
  have lit: "pub_status ''true'' = pub_status (bool_literal True)"
            "pub_status ''false'' = pub_status (bool_literal False)"
    by (simp_all add: bool_literal_def)
  show ?thesis
  proof (cases b)
    case True
    then have v: "z_sample_payload sample = ''true''"
      using assms(2) by (simp add: bool_literal_def)
    show ?thesis
      unfolding data_handler_unfold [OF assms(1)] Let_def
      using quiet True
      by (simp add: v lit actuations_emit published_emit actuations_gpio_set_level
            published_gpio_set_level gpio_level_emit gpio_level_gpio_set_level
            pub_status_literal split: option.split)
  next
    case False
    then have v: "z_sample_payload sample = ''false''"
      using assms(2) by (simp add: bool_literal_def)
    show ?thesis
      unfolding data_handler_unfold [OF assms(1)] Let_def
      using quiet False
      by (simp add: v lit actuations_emit published_emit actuations_gpio_set_level
            published_gpio_set_level gpio_level_emit gpio_level_gpio_set_level
            pub_status_literal split: option.split)
  qed
qed

lemma emit_keeps: "emit es st = st\<lparr>trace := trace (emit es st)\<rparr>"
  by (simp add: emit_def)

lemma data_handler_drops:
  assumes "attachment_handler sample = Some (signal_type, logged)"
      and "signal_type = SIGNAL_TYPE_TARGET_VALUE \<longrightarrow>
             z_sample_payload sample \<noteq> ''true'' \<and> z_sample_payload sample \<noteq> ''false''"
  shows "\<exists>st'. data_handler sample st = Some st'
           \<and> st' = st\<lparr>trace := trace st'\<rparr>
           \<and> actuations st' = actuations st
           \<and> published st' = published st
           \<and> (signal_type = SIGNAL_TYPE_TARGET_VALUE \<longrightarrow>
                last (trace st') = ESP_LOG (LOG_unknown_value (z_sample_payload sample)))
           \<and> (signal_type = SIGNAL_TYPE_CURRENT_VALUE \<longrightarrow>
                last (trace st') = ESP_LOG LOG_discarding_current_value)"
proof -
  note quiet = attachment_handler_logs_only [OF assms(1)]
  show ?thesis
    unfolding data_handler_unfold [OF assms(1)] Let_def
    using quiet assms(2)
    by (cases signal_type)
       (simp_all add: emit_def actuations_def published_def split: option.split)
qed


lemma classification_SomeD:
  "classification sample = Some signal_type \<Longrightarrow>
     \<exists>logged. attachment_handler sample = Some (signal_type, logged)"
  by (auto simp: classification_def)

lemma classification_returns: "\<exists>signal_type. classification sample = Some signal_type"
  using attachment_handler_returns [of sample] by (auto simp: classification_def)

lemma data_handler_returns: "\<exists>st'. data_handler sample st = Some st'"
proof -
  obtain signal_type logged where "attachment_handler sample = Some (signal_type, logged)"
    using attachment_handler_returns [of sample] by auto
  then show ?thesis
    by (simp add: data_handler_unfold Let_def)
qed

text \<open>What the classifier computes: it accepts every prefix of a literal.\<close>

lemma strncmp_literal_zero_iff:
  assumes "NUL \<notin> set lit"
  shows "strncmp s (c_str lit) (length s) = Some 0 \<longleftrightarrow>
           (length s \<le> length lit \<and> s = take (length s) lit) \<or> (\<exists>rest. s = lit @ NUL # rest)"
  using assms
proof (induction s arbitrary: lit)
  case Nil
  then show ?case by simp
next
  case (Cons a s)
  show ?case
  proof (cases lit)
    case Nil
    then show ?thesis
      by (auto simp: c_str_def of_char_eq_iff)
  next
    case (Cons b lit')
    with Cons.prems have b: "b \<noteq> NUL" and lit': "NUL \<notin> set lit'"
      by auto
    show ?thesis
    proof (cases "a = b")
      case True
      have "strncmp (a # s) (c_str lit) (length (a # s)) = strncmp s (c_str lit') (length s)"
        using True b Cons by (simp add: c_str_def)
      then show ?thesis
        using Cons.IH [OF lit'] True Cons by simp
    next
      case False
      then show ?thesis
        using Cons by (auto simp: c_str_def of_char_eq_iff)
    qed
  qed
qed

lemma classification_current_value_iff:
  "classification sample = Some SIGNAL_TYPE_CURRENT_VALUE \<longleftrightarrow>
     (\<exists>tag. z_sample_attachment sample = Some tag
        \<and> ((length tag \<le> length ''currentValue'' \<and> tag = take (length tag) ''currentValue'')
           \<or> (\<exists>rest. tag = ''currentValue'' @ NUL # rest)))"
proof (cases "z_sample_attachment sample")
  case None
  then show ?thesis by (simp add: classification_def attachment_handler_def)
next
  case (Some tag)
  have n: "NUL \<notin> set ''currentValue''" by (simp add: NUL_def)
  obtain r1 where r1: "strncmp tag (c_str ''currentValue'') (length tag) = Some r1"
    using strncmp_literal_returns by blast
  obtain r2 where r2: "strncmp tag (c_str ''targetValue'') (length tag) = Some r2"
    using strncmp_literal_returns by blast
  have "classification sample = Some SIGNAL_TYPE_CURRENT_VALUE \<longleftrightarrow> r1 = 0"
    using Some r1 r2 by (simp add: classification_def attachment_handler_def Let_def)
  also have "\<dots> \<longleftrightarrow> strncmp tag (c_str ''currentValue'') (length tag) = Some 0"
    using r1 by simp
  also have "\<dots> \<longleftrightarrow> (length tag \<le> length ''currentValue'' \<and> tag = take (length tag) ''currentValue'')
           \<or> (\<exists>rest. tag = ''currentValue'' @ NUL # rest)"
    by (rule strncmp_literal_zero_iff [OF n])
  finally show ?thesis unfolding Some by blast
qed

lemma classification_examples:
  "classification (sample_with_tag None) = Some SIGNAL_TYPE_UNKNOWN"
  "classification (sample_with_tag (Some ''currentValue'')) = Some SIGNAL_TYPE_CURRENT_VALUE"
  "classification (sample_with_tag (Some ''targetValue'')) = Some SIGNAL_TYPE_TARGET_VALUE"
  "classification (sample_with_tag (Some ''currentValueX'')) = Some SIGNAL_TYPE_UNKNOWN"
  "classification (sample_with_tag (Some ''t'')) = Some SIGNAL_TYPE_TARGET_VALUE"
  by (simp_all add: classification_def attachment_handler_def sample_with_tag_def c_str_def NUL_def)

text \<open>
  Claim C1. The classifier is to return CurrentValue exactly when the tag equals
  \<open>currentValue\<close>. \<open>attachment_handler\<close> bounds \<open>strncmp\<close> by the length of the tag
  and never compares that length with the length of the literal, so the 7-byte tag
  \<open>current\<close>, which is not the literal, is classified CurrentValue.
\<close>

theorem attachment_handler_accepts_prefix:
  "classification (sample_with_tag (Some ''current'')) = Some SIGNAL_TYPE_CURRENT_VALUE
   \<and> ''current'' \<noteq> ''currentValue''"
  by (simp add: classification_def attachment_handler_def sample_with_tag_def c_str_def NUL_def)

text \<open>
  Claim C2. A message classified TargetValue whose payload is exactly \<open>true\<close> (or
  \<open>false\<close>) sets the output state to that boolean and drives the pin, and after that
  performs exactly one publish, with that payload and the tag \<open>currentValue\<close>: the
  actuation and publish effects of the call are the pin write followed by the publish.
\<close>

theorem target_value_actuates_then_confirms:
  assumes "classification sample = Some SIGNAL_TYPE_TARGET_VALUE"
      and "z_sample_payload sample = bool_literal b"
  shows "\<exists>st'. data_handler sample st = Some st'
           \<and> output_state st' = b
           \<and> actuations st' =
               actuations st @ [Gpio_set_level LED_GPIO (if b then 1 else 0),
                                Z_publisher_put (bool_literal b) ''currentValue''
                                  ''zenoh/string;utf8'']
           \<and> published st' =
               published st @ [Z_publisher_put (bool_literal b) ''currentValue''
                                 ''zenoh/string;utf8'']"
proof -
  obtain logged where "attachment_handler sample = Some (SIGNAL_TYPE_TARGET_VALUE, logged)"
    using classification_SomeD [OF assms(1)] by blast
  from data_handler_actuates [OF this assms(2), of st]
  show ?thesis
    by (auto simp: output_state_def confirmation_def)
qed

lemma tag_target_value:
  "classification (sample_with_tag (Some ''targetValue'')) = Some SIGNAL_TYPE_TARGET_VALUE"
  by (simp add: classification_def attachment_handler_def sample_with_tag_def c_str_def NUL_def)

lemma tag_current_value:
  "classification (sample_with_tag (Some ''currentValue'')) = Some SIGNAL_TYPE_CURRENT_VALUE"
  by (simp add: classification_def attachment_handler_def sample_with_tag_def c_str_def NUL_def)

theorem target_value_actuates_then_confirms_witness:
  "classification (sample_with_tag (Some ''targetValue'')) = Some SIGNAL_TYPE_TARGET_VALUE
   \<and> z_sample_payload (sample_with_tag (Some ''targetValue'')) = bool_literal True
   \<and> (\<exists>st'. data_handler (sample_with_tag (Some ''targetValue'')) initial_state = Some st'
          \<and> output_state st' = True
          \<and> actuations st' =
               actuations initial_state @ [Gpio_set_level LED_GPIO (if True then 1 else 0),
                                Z_publisher_put (bool_literal True) ''currentValue''
                                  ''zenoh/string;utf8'']
          \<and> published st' =
               published initial_state @ [Z_publisher_put (bool_literal True) ''currentValue''
                                 ''zenoh/string;utf8''])"
proof -
  have p: "z_sample_payload (sample_with_tag (Some ''targetValue'')) = bool_literal True"
    by (simp add: sample_with_tag_def bool_literal_def)
  show ?thesis
    using tag_target_value p
      target_value_actuates_then_confirms [OF tag_target_value p, of initial_state]
    by blast
qed

lemma data_handler_cases:
  assumes "attachment_handler sample = Some (signal_type, logged)"
  obtains (actuates) b where "signal_type = SIGNAL_TYPE_TARGET_VALUE"
      and "z_sample_payload sample = bool_literal b"
  | (drops) "signal_type = SIGNAL_TYPE_TARGET_VALUE \<longrightarrow>
      z_sample_payload sample \<noteq> ''true'' \<and> z_sample_payload sample \<noteq> ''false''"
proof (cases "signal_type = SIGNAL_TYPE_TARGET_VALUE
              \<and> (z_sample_payload sample = ''true'' \<or> z_sample_payload sample = ''false'')")
  case True
  then have "z_sample_payload sample = bool_literal True
             \<or> z_sample_payload sample = bool_literal False"
    by (simp add: bool_literal_def)
  with True actuates show ?thesis by blast
next
  case False
  with drops show ?thesis by blast
qed

lemma output_state_after_set:
  "gpio_level st' = (gpio_level st)(LED_GPIO := (if b then 1 else 0)) \<Longrightarrow> output_state st' = b"
  by (simp add: output_state_def)

lemma output_state_kept: "st' = st\<lparr>trace := t\<rparr> \<Longrightarrow> output_state st' = output_state st"
  by (simp add: output_state_def)

text \<open>
  Claim C3. After a call that completes a classification-and-actuation cycle the one
  message it published is the confirmation of the output state; a call classified
  CurrentValue or Unknown publishes nothing. Hence the output state agreeing with the
  last published confirmation is kept by every call.
\<close>

theorem output_state_equals_last_confirmation:
  assumes "data_handler sample st = Some st'"
  shows "(classification sample = Some SIGNAL_TYPE_TARGET_VALUE
            \<and> (z_sample_payload sample = ''true'' \<or> z_sample_payload sample = ''false'')
          \<longrightarrow> published st' = published st @ [confirmation (output_state st')])
       \<and> (classification sample = Some SIGNAL_TYPE_CURRENT_VALUE
            \<or> classification sample = Some SIGNAL_TYPE_UNKNOWN
          \<longrightarrow> published st' = published st \<and> actuations st' = actuations st)
       \<and> (published st = [] \<or> last (published st) = confirmation (output_state st)
          \<longrightarrow> published st' = [] \<or> last (published st') = confirmation (output_state st'))"
proof -
  obtain signal_type logged where ah: "attachment_handler sample = Some (signal_type, logged)"
    using attachment_handler_returns [of sample] by auto
  then have cl: "classification sample = Some signal_type"
    by (simp add: classification_def)
  from ah show ?thesis
  proof (cases rule: data_handler_cases)
    case (actuates b)
    from data_handler_actuates [of sample logged b st] ah actuates assms
    have g: "gpio_level st' = (gpio_level st)(LED_GPIO := (if b then 1 else 0))"
      and p: "published st' = published st @ [confirmation b]"
      by auto
    have "output_state st' = b"
      using g by (rule output_state_after_set)
    with p cl actuates show ?thesis by simp
  next
    case drops
    from data_handler_drops [OF ah drops, of st] assms
    have k: "st' = st\<lparr>trace := trace st'\<rparr>"
      and a: "actuations st' = actuations st"
      and p: "published st' = published st"
      by auto
    have "output_state st' = output_state st"
      using k by (rule output_state_kept)
    with a p cl drops show ?thesis by auto
  qed
qed

theorem output_state_equals_last_confirmation_witness:
  "(\<exists>st'. data_handler (sample_with_tag (Some ''targetValue'')) initial_state = Some st'
      \<and> published st' = published initial_state @ [confirmation (output_state st')]
      \<and> last (published st') = confirmation (output_state st'))
   \<and> (\<exists>st'. data_handler (sample_with_tag (Some ''currentValue'')) initial_state = Some st'
      \<and> published st' = published initial_state \<and> actuations st' = actuations initial_state)"
proof -
  obtain st1 where
    h1: "data_handler (sample_with_tag (Some ''targetValue'')) initial_state = Some st1"
    using data_handler_returns by blast
  obtain st2 where
    h2: "data_handler (sample_with_tag (Some ''currentValue'')) initial_state = Some st2"
    using data_handler_returns by blast
  have p: "z_sample_payload (sample_with_tag (Some ''targetValue'')) = ''true''"
    by (simp add: sample_with_tag_def)
  have e: "published initial_state = []"
    by (simp add: published_def initial_state_def)
  from output_state_equals_last_confirmation [OF h1] tag_target_value p e
  have "published st1 = published initial_state @ [confirmation (output_state st1)]"
    and "last (published st1) = confirmation (output_state st1)"
    by auto
  moreover from output_state_equals_last_confirmation [OF h2] tag_current_value
  have "published st2 = published initial_state \<and> actuations st2 = actuations initial_state"
    by blast
  ultimately show ?thesis using h1 h2 by blast
qed

text \<open>
  Claim C7. A message classified TargetValue whose payload is neither \<open>true\<close> nor
  \<open>false\<close>, and every message classified CurrentValue, leaves the state as it was but
  for the log, publishes nothing and writes no pin; the last thing the call does is the
  log line of the drop.
\<close>

theorem unrecognised_payload_and_echo_are_dropped:
  assumes "(classification sample = Some SIGNAL_TYPE_TARGET_VALUE
              \<and> z_sample_payload sample \<noteq> ''true'' \<and> z_sample_payload sample \<noteq> ''false'')
           \<or> classification sample = Some SIGNAL_TYPE_CURRENT_VALUE"
  shows "\<exists>st'. data_handler sample st = Some st'
           \<and> st' = st\<lparr>trace := trace st'\<rparr>
           \<and> output_state st' = output_state st
           \<and> actuations st' = actuations st
           \<and> published st' = published st
           \<and> last (trace st') =
               (if classification sample = Some SIGNAL_TYPE_CURRENT_VALUE
                then ESP_LOG LOG_discarding_current_value
                else ESP_LOG (LOG_unknown_value (z_sample_payload sample)))"
proof -
  obtain signal_type logged where ah: "attachment_handler sample = Some (signal_type, logged)"
    using attachment_handler_returns [of sample] by auto
  then have cl: "classification sample = Some signal_type"
    by (simp add: classification_def)
  have d: "signal_type = SIGNAL_TYPE_TARGET_VALUE \<longrightarrow>
      z_sample_payload sample \<noteq> ''true'' \<and> z_sample_payload sample \<noteq> ''false''"
    using assms cl by auto
  obtain st' where r: "data_handler sample st = Some st'"
    and k: "st' = st\<lparr>trace := trace st'\<rparr>"
    and a: "actuations st' = actuations st"
    and p: "published st' = published st"
    and lt: "signal_type = SIGNAL_TYPE_TARGET_VALUE \<longrightarrow>
                last (trace st') = ESP_LOG (LOG_unknown_value (z_sample_payload sample))"
    and lc: "signal_type = SIGNAL_TYPE_CURRENT_VALUE \<longrightarrow>
                last (trace st') = ESP_LOG LOG_discarding_current_value"
    using data_handler_drops [OF ah d, of st] by blast
  have o: "output_state st' = output_state st"
    using k by (rule output_state_kept)
  have "last (trace st') =
               (if classification sample = Some SIGNAL_TYPE_CURRENT_VALUE
                then ESP_LOG LOG_discarding_current_value
                else ESP_LOG (LOG_unknown_value (z_sample_payload sample)))"
    using assms cl lt lc by auto
  with r k a p o show ?thesis by blast
qed

lemma sample_maybe_target:
  "classification sample_maybe = Some SIGNAL_TYPE_TARGET_VALUE"
  by (simp add: sample_maybe_def classification_def attachment_handler_def sample_with_tag_def c_str_def NUL_def)

theorem unrecognised_payload_and_echo_are_dropped_witness:
  "classification sample_maybe = Some SIGNAL_TYPE_TARGET_VALUE
   \<and> z_sample_payload sample_maybe \<noteq> ''true'' \<and> z_sample_payload sample_maybe \<noteq> ''false''
   \<and> (\<exists>st'. data_handler sample_maybe initial_state = Some st'
          \<and> output_state st' = output_state initial_state
          \<and> published st' = published initial_state
          \<and> last (trace st') = ESP_LOG (LOG_unknown_value ''maybe''))
   \<and> classification (sample_with_tag (Some ''currentValue'')) = Some SIGNAL_TYPE_CURRENT_VALUE
   \<and> (\<exists>st'. data_handler (sample_with_tag (Some ''currentValue'')) initial_state = Some st'
          \<and> output_state st' = output_state initial_state
          \<and> published st' = published initial_state
          \<and> last (trace st') = ESP_LOG LOG_discarding_current_value)"
proof -
  have p: "z_sample_payload sample_maybe = ''maybe''"
    by (simp add: sample_maybe_def)
  have h: "(classification sample_maybe = Some SIGNAL_TYPE_TARGET_VALUE
              \<and> z_sample_payload sample_maybe \<noteq> ''true''
              \<and> z_sample_payload sample_maybe \<noteq> ''false'')
           \<or> classification sample_maybe = Some SIGNAL_TYPE_CURRENT_VALUE"
    using sample_maybe_target p by simp
  have h': "(classification (sample_with_tag (Some ''currentValue'')) = Some SIGNAL_TYPE_TARGET_VALUE
              \<and> z_sample_payload (sample_with_tag (Some ''currentValue'')) \<noteq> ''true''
              \<and> z_sample_payload (sample_with_tag (Some ''currentValue'')) \<noteq> ''false'')
           \<or> classification (sample_with_tag (Some ''currentValue'')) = Some SIGNAL_TYPE_CURRENT_VALUE"
    using tag_current_value by simp
  show ?thesis
    using unrecognised_payload_and_echo_are_dropped [OF h, of initial_state]
      unrecognised_payload_and_echo_are_dropped [OF h', of initial_state]
      sample_maybe_target tag_current_value p
    by auto
qed

lemma attachment_handler_tag_only:
  "z_sample_attachment s1 = z_sample_attachment s2 \<Longrightarrow>
     attachment_handler s1 = attachment_handler s2"
  by (simp add: attachment_handler_def)

lemma data_handler_actuates_frame:
  assumes "attachment_handler sample = Some (SIGNAL_TYPE_TARGET_VALUE, logged)"
      and "z_sample_payload sample = bool_literal b"
      and "data_handler sample st = Some st'"
  shows "st'\<lparr>trace := []\<rparr> =
           st\<lparr>gpio_level := (gpio_level st)(LED_GPIO := (if b then 1 else 0)), trace := []\<rparr>"
  using assms(2,3)
  unfolding data_handler_unfold [OF assms(1)] Let_def
  by (cases b) (auto simp: bool_literal_def emit_def gpio_set_level_def split: option.splits)

lemma without_trace: "st' = st\<lparr>trace := t\<rparr> \<Longrightarrow> st'\<lparr>trace := []\<rparr> = st\<lparr>trace := []\<rparr>"
  by simp

text \<open>
  Claim C10. Two messages with the same tag and the same payload, whatever their
  key-expressions, encodings and timestamps, take the callback from a state to states
  that differ in the log only: same output state, same pin writes, same publishes.
\<close>

theorem effect_depends_on_tag_and_payload_only:
  assumes "z_sample_attachment s1 = z_sample_attachment s2"
      and "z_sample_payload s1 = z_sample_payload s2"
  shows "\<exists>st1 st2. data_handler s1 st = Some st1 \<and> data_handler s2 st = Some st2
           \<and> st1\<lparr>trace := []\<rparr> = st2\<lparr>trace := []\<rparr>
           \<and> output_state st1 = output_state st2
           \<and> actuations st1 = actuations st2
           \<and> published st1 = published st2"
proof -
  obtain signal_type logged where ah1: "attachment_handler s1 = Some (signal_type, logged)"
    using attachment_handler_returns [of s1] by auto
  then have ah2: "attachment_handler s2 = Some (signal_type, logged)"
    using attachment_handler_tag_only [OF assms(1)] by simp
  from ah1 show ?thesis
  proof (cases rule: data_handler_cases)
    case (actuates b)
    then have b2: "z_sample_payload s2 = bool_literal b"
      using assms(2) by simp
    have t1: "attachment_handler s1 = Some (SIGNAL_TYPE_TARGET_VALUE, logged)"
      and t2: "attachment_handler s2 = Some (SIGNAL_TYPE_TARGET_VALUE, logged)"
      using ah1 ah2 actuates by simp_all
    obtain st1 where r1: "data_handler s1 st = Some st1"
      and g1: "gpio_level st1 = (gpio_level st)(LED_GPIO := (if b then 1 else 0))"
      and a1: "actuations st1 =
                 actuations st @ [Gpio_set_level LED_GPIO (if b then 1 else 0), confirmation b]"
      and p1: "published st1 = published st @ [confirmation b]"
      using data_handler_actuates [OF t1 actuates(2), of st] by blast
    obtain st2 where r2: "data_handler s2 st = Some st2"
      and g2: "gpio_level st2 = (gpio_level st)(LED_GPIO := (if b then 1 else 0))"
      and a2: "actuations st2 =
                 actuations st @ [Gpio_set_level LED_GPIO (if b then 1 else 0), confirmation b]"
      and p2: "published st2 = published st @ [confirmation b]"
      using data_handler_actuates [OF t2 b2, of st] by blast
    have f: "st1\<lparr>trace := []\<rparr> = st2\<lparr>trace := []\<rparr>"
      using data_handler_actuates_frame [OF t1 actuates(2) r1]
        data_handler_actuates_frame [OF t2 b2 r2] by simp
    have o: "output_state st1 = output_state st2"
      using g1 g2 by (simp add: output_state_def)
    show ?thesis
      using r1 r2 f o a1 a2 p1 p2 by simp
  next
    case drops
    then have d2: "signal_type = SIGNAL_TYPE_TARGET_VALUE \<longrightarrow>
        z_sample_payload s2 \<noteq> ''true'' \<and> z_sample_payload s2 \<noteq> ''false''"
      using assms(2) by simp
    obtain st1 where r1: "data_handler s1 st = Some st1"
      and k1: "st1 = st\<lparr>trace := trace st1\<rparr>"
      and a1: "actuations st1 = actuations st"
      and p1: "published st1 = published st"
      using data_handler_drops [OF ah1 drops, of st] by blast
    obtain st2 where r2: "data_handler s2 st = Some st2"
      and k2: "st2 = st\<lparr>trace := trace st2\<rparr>"
      and a2: "actuations st2 = actuations st"
      and p2: "published st2 = published st"
      using data_handler_drops [OF ah2 d2, of st] by blast
    have f: "st1\<lparr>trace := []\<rparr> = st2\<lparr>trace := []\<rparr>"
      using without_trace [OF k1] without_trace [OF k2] by simp
    have o: "output_state st1 = output_state st2"
      using output_state_kept [OF k1] output_state_kept [OF k2] by simp
    show ?thesis
      using r1 r2 f o a1 a2 p1 p2 by simp
  qed
qed

theorem effect_depends_on_tag_and_payload_only_witness:
  "z_sample_attachment (sample_with_tag (Some ''targetValue''))
     = z_sample_attachment sample_other_metadata
   \<and> z_sample_payload (sample_with_tag (Some ''targetValue''))
     = z_sample_payload sample_other_metadata
   \<and> sample_with_tag (Some ''targetValue'') \<noteq> sample_other_metadata
   \<and> (\<exists>st1 st2.
         data_handler (sample_with_tag (Some ''targetValue'')) initial_state = Some st1
       \<and> data_handler sample_other_metadata initial_state = Some st2
       \<and> st1\<lparr>trace := []\<rparr> = st2\<lparr>trace := []\<rparr>
       \<and> output_state st1 = output_state st2
       \<and> actuations st1 = actuations st2
       \<and> published st1 = published st2)"
proof -
  have a: "z_sample_attachment (sample_with_tag (Some ''targetValue''))
             = z_sample_attachment sample_other_metadata"
    by (simp add: sample_with_tag_def sample_other_metadata_def)
  have p: "z_sample_payload (sample_with_tag (Some ''targetValue''))
             = z_sample_payload sample_other_metadata"
    by (simp add: sample_with_tag_def sample_other_metadata_def)
  have n: "sample_with_tag (Some ''targetValue'') \<noteq> sample_other_metadata"
    by (simp add: sample_with_tag_def sample_other_metadata_def)
  show ?thesis
    using a p n effect_depends_on_tag_and_payload_only [OF a p, of initial_state]
    by blast
qed

section \<open>The retry state machine\<close>

lemma sint_succ:
  fixes c m :: "32 word"
  assumes "c <s m"
  shows "sint (c + 1) = sint c + 1"
proof -
  have "sint c < sint m" using assms by (simp add: word_sless_alt)
  moreover have "sint m < 2 ^ 31" using sint_lt [of m] by simp
  moreover have "- (2 ^ 31) \<le> sint c" using sint_ge [of c] by simp
  ultimately show ?thesis
    by (simp add: sint_word_ariths signed_take_bit_int_eq_self)
qed

lemma event_handler_link_down_retry:
  assumes "s_retry_count st <s ESP_MAXIMUM_RETRY cfg"
  shows "event_handler cfg (fst link_down) (snd link_down) st =
           st\<lparr>s_retry_count := s_retry_count st + 1, trace := trace st @ [Esp_wifi_connect]\<rparr>"
  using assms
  by (simp add: event_handler_def link_down_def esp_wifi_connect_def emit_def Let_def
        WIFI_EVENT_STA_START_def WIFI_EVENT_STA_DISCONNECTED_def)

lemma event_handler_link_down_exhausted:
  assumes "\<not> s_retry_count st <s ESP_MAXIMUM_RETRY cfg"
  shows "event_handler cfg (fst link_down) (snd link_down) st = st"
  using assms
  by (simp add: event_handler_def link_down_def
        WIFI_EVENT_STA_START_def WIFI_EVENT_STA_DISCONNECTED_def)

lemma event_handler_link_up:
  "s_retry_count (event_handler cfg (fst link_up) (snd link_up) st) = 0"
  by (simp add: event_handler_def link_up_def xEventGroupSetBits_def Let_def)

lemma event_handler_keeps_range:
  assumes "retry_count_in_range cfg st"
  shows "retry_count_in_range cfg (event_handler cfg event_base event_id st)"
proof -
  have up: "retry_count_in_range cfg (st\<lparr>s_retry_count := s_retry_count st + 1, trace := t\<rparr>)"
    if "s_retry_count st <s ESP_MAXIMUM_RETRY cfg" for t
  proof -
    have "sint (s_retry_count st + 1) = sint (s_retry_count st) + 1"
      using that by (rule sint_succ)
    moreover have "sint (s_retry_count st) < sint (ESP_MAXIMUM_RETRY cfg)"
      using that by (simp add: word_sless_alt)
    ultimately show ?thesis
      using assms by (simp add: retry_count_in_range_def)
  qed
  show ?thesis
    using assms up
    by (auto simp: event_handler_def esp_wifi_connect_def emit_def Let_def
          xEventGroupSetBits_def retry_count_in_range_def)
qed


lemma run_events_append:
  "run_events cfg (es @ es') st = run_events cfg es' (run_events cfg es st)"
  by (induction es arbitrary: st) simp_all

lemma run_link_downs:
  assumes "sint (s_retry_count st) + int k \<le> sint (ESP_MAXIMUM_RETRY cfg)"
  shows "sint (s_retry_count (run_events cfg (replicate k link_down) st))
           = sint (s_retry_count st) + int k
       \<and> connect_attempts (run_events cfg (replicate k link_down) st)
           = connect_attempts st + k"
  using assms
proof (induction k arbitrary: st)
  case 0
  then show ?case by simp
next
  case (Suc k)
  let ?st1 = "st\<lparr>s_retry_count := s_retry_count st + 1, trace := trace st @ [Esp_wifi_connect]\<rparr>"
  have less: "s_retry_count st <s ESP_MAXIMUM_RETRY cfg"
    using Suc.prems by (simp add: word_sless_alt)
  have step: "event_handler cfg (fst link_down) (snd link_down) st = ?st1"
    using less by (rule event_handler_link_down_retry)
  have cnt: "sint (s_retry_count ?st1) = sint (s_retry_count st) + 1"
    using sint_succ [OF less] by simp
  have att: "connect_attempts ?st1 = connect_attempts st + 1"
    by (simp add: connect_attempts_def)
  have "sint (s_retry_count ?st1) + int k \<le> sint (ESP_MAXIMUM_RETRY cfg)"
    using Suc.prems cnt by simp
  from Suc.IH [OF this] show ?case
    using step cnt att by simp
qed

lemma exhausted_kept:
  assumes "s_retry_count st = ESP_MAXIMUM_RETRY cfg" and "e \<noteq> link_up"
  shows "s_retry_count (event_handler cfg (fst e) (snd e) st) = ESP_MAXIMUM_RETRY cfg"
  using assms
  by (cases e)
     (auto simp: event_handler_def link_up_def esp_wifi_connect_def emit_def
        word_sless_alt)

lemma exhausted_run:
  assumes "s_retry_count st = ESP_MAXIMUM_RETRY cfg" and "link_up \<notin> set es"
  shows "s_retry_count (run_events cfg es st) = ESP_MAXIMUM_RETRY cfg"
  using assms
proof (induction es arbitrary: st)
  case Nil
  then show ?case by simp
next
  case (Cons e es)
  then have "s_retry_count (event_handler cfg (fst e) (snd e) st) = ESP_MAXIMUM_RETRY cfg"
    by (intro exhausted_kept) auto
  with Cons show ?case by simp
qed

lemma exhausted_link_down:
  assumes "s_retry_count st = ESP_MAXIMUM_RETRY cfg"
  shows "event_handler cfg (fst link_down) (snd link_down) st = st"
  by (rule event_handler_link_down_exhausted) (simp add: assms word_sless_alt)

text \<open>
  Claim C6. With the counter at zero, as a link-up leaves it, each of the first
  \<open>ESP_MAXIMUM_RETRY\<close> consecutive link-down events makes one reassociation attempt and
  counts it; after exactly that many, whatever events other than a link-up follow, a
  link-down changes nothing: no attempt is made. A link-up sets the counter to zero
  in every state.
\<close>

theorem retry_budget:
  assumes "0 \<le> sint (ESP_MAXIMUM_RETRY cfg)" and "s_retry_count st = 0"
  shows "(\<forall>k \<le> nat (sint (ESP_MAXIMUM_RETRY cfg)).
            sint (s_retry_count (run_events cfg (replicate k link_down) st)) = int k
          \<and> connect_attempts (run_events cfg (replicate k link_down) st)
              = connect_attempts st + k)
       \<and> (\<forall>es. link_up \<notin> set es \<longrightarrow>
            event_handler cfg (fst link_down) (snd link_down)
              (run_events cfg
                 (replicate (nat (sint (ESP_MAXIMUM_RETRY cfg))) link_down @ es) st)
            = run_events cfg
                (replicate (nat (sint (ESP_MAXIMUM_RETRY cfg))) link_down @ es) st)
       \<and> (\<forall>st'. s_retry_count (event_handler cfg (fst link_up) (snd link_up) st') = 0)"
proof (intro conjI allI impI)
  fix k
  assume "k \<le> nat (sint (ESP_MAXIMUM_RETRY cfg))"
  then have "sint (s_retry_count st) + int k \<le> sint (ESP_MAXIMUM_RETRY cfg)"
    using assms by simp
  from run_link_downs [OF this]
  show "sint (s_retry_count (run_events cfg (replicate k link_down) st)) = int k"
    and "connect_attempts (run_events cfg (replicate k link_down) st)
           = connect_attempts st + k"
    using assms(2) by simp_all
next
  fix es
  assume no_up: "link_up \<notin> set es"
  let ?n = "nat (sint (ESP_MAXIMUM_RETRY cfg))"
  let ?stn = "run_events cfg (replicate ?n link_down) st"
  have "sint (s_retry_count st) + int ?n \<le> sint (ESP_MAXIMUM_RETRY cfg)"
    using assms by simp
  from run_link_downs [OF this]
  have "sint (s_retry_count ?stn) = sint (ESP_MAXIMUM_RETRY cfg)"
    using assms by simp
  then have full: "s_retry_count ?stn = ESP_MAXIMUM_RETRY cfg"
    by (rule signed_word_eqI)
  have split: "run_events cfg (replicate ?n link_down @ es) st = run_events cfg es ?stn"
    by (rule run_events_append)
  have "s_retry_count (run_events cfg es ?stn) = ESP_MAXIMUM_RETRY cfg"
    using full no_up by (rule exhausted_run)
  then show "event_handler cfg (fst link_down) (snd link_down)
              (run_events cfg (replicate ?n link_down @ es) st)
            = run_events cfg (replicate ?n link_down @ es) st"
    unfolding split by (rule exhausted_link_down)
next
  fix st'
  show "s_retry_count (event_handler cfg (fst link_up) (snd link_up) st') = 0"
    by (rule event_handler_link_up)
qed


theorem retry_budget_witness:
  "0 \<le> sint (ESP_MAXIMUM_RETRY example_config) \<and> s_retry_count initial_state = 0
   \<and> sint (s_retry_count (run_events example_config (replicate 5 link_down) initial_state)) = 5
   \<and> connect_attempts (run_events example_config (replicate 5 link_down) initial_state)
        = connect_attempts initial_state + 5
   \<and> event_handler example_config (fst link_down) (snd link_down)
        (run_events example_config (replicate 5 link_down @ [link_down, link_down]) initial_state)
      = run_events example_config (replicate 5 link_down @ [link_down, link_down]) initial_state
   \<and> s_retry_count (event_handler example_config (fst link_up) (snd link_up)
        (run_events example_config (replicate 5 link_down) initial_state)) = 0"
proof -
  have h1: "0 \<le> sint (ESP_MAXIMUM_RETRY example_config)"
    by (simp add: example_config_def)
  have h2: "s_retry_count initial_state = 0"
    by (simp add: initial_state_def)
  have n: "nat (sint (ESP_MAXIMUM_RETRY example_config)) = 5"
    by (simp add: example_config_def)
  have d: "link_up \<notin> set [link_down, link_down]"
    by (simp add: link_up_def link_down_def)
  note budget = retry_budget [OF h1 h2, unfolded n]
  have "sint (s_retry_count (run_events example_config (replicate 5 link_down) initial_state)) = int 5
        \<and> connect_attempts (run_events example_config (replicate 5 link_down) initial_state)
        = connect_attempts initial_state + 5"
    using budget by blast
  moreover have "event_handler example_config (fst link_down) (snd link_down)
        (run_events example_config (replicate 5 link_down @ [link_down, link_down]) initial_state)
      = run_events example_config (replicate 5 link_down @ [link_down, link_down]) initial_state"
    using budget d by blast
  moreover have "s_retry_count (event_handler example_config (fst link_up) (snd link_up)
        (run_events example_config (replicate 5 link_down) initial_state)) = 0"
    using budget by blast
  ultimately show ?thesis using h1 h2 by simp
qed

lemma run_events_keeps_range:
  "retry_count_in_range cfg st \<Longrightarrow> retry_count_in_range cfg (run_events cfg es st)"
  by (induction es arbitrary: st) (simp_all add: event_handler_keeps_range)

text \<open>
  Claim C9. Every step of the event handler keeps \<open>0 \<le> s_retry_count \<le> ESP_MAXIMUM_RETRY\<close>
  (read as C \<open>int\<close>s): the increment happens only below the maximum, where it cannot
  overflow, and the other assignment stores zero. From the initial state, where the
  counter is zero, the bounds hold after any sequence of events.
\<close>

theorem retry_count_stays_in_range:
  "(retry_count_in_range cfg st \<longrightarrow>
      retry_count_in_range cfg (event_handler cfg event_base event_id st))
   \<and> (0 \<le> sint (ESP_MAXIMUM_RETRY cfg) \<longrightarrow>
      retry_count_in_range cfg (run_events cfg es initial_state))"
proof (intro conjI impI)
  assume "retry_count_in_range cfg st"
  then show "retry_count_in_range cfg (event_handler cfg event_base event_id st)"
    by (rule event_handler_keeps_range)
next
  assume "0 \<le> sint (ESP_MAXIMUM_RETRY cfg)"
  then have "retry_count_in_range cfg initial_state"
    by (simp add: retry_count_in_range_def initial_state_def)
  then show "retry_count_in_range cfg (run_events cfg es initial_state)"
    by (rule run_events_keeps_range)
qed

theorem retry_count_stays_in_range_witness:
  "retry_count_in_range example_config initial_state
   \<and> retry_count_in_range example_config
       (event_handler example_config WIFI_EVENT WIFI_EVENT_STA_DISCONNECTED initial_state)
   \<and> 0 \<le> sint (ESP_MAXIMUM_RETRY example_config)
   \<and> retry_count_in_range example_config
       (run_events example_config (replicate 7 link_down @ [link_up, link_down]) initial_state)"
proof -
  have h: "retry_count_in_range example_config initial_state"
    by (simp add: retry_count_in_range_def example_config_def initial_state_def)
  have m: "0 \<le> sint (ESP_MAXIMUM_RETRY example_config)"
    by (simp add: example_config_def)
  show ?thesis
    using h m
      retry_count_stays_in_range [of example_config initial_state WIFI_EVENT
        WIFI_EVENT_STA_DISCONNECTED "replicate 7 link_down @ [link_up, link_down]"]
    by blast
qed

section \<open>Locator validation\<close>

lemma nil_in_cat_lang: "[] \<in> cat_lang A B \<longleftrightarrow> [] \<in> A \<and> [] \<in> B"
  by (auto simp: cat_lang_def)

lemma nullable_iff: "nullable r \<longleftrightarrow> [] \<in> lang r"
  by (induction r) (auto simp: nil_in_cat_lang intro: star_nil)

lemma Cons_in_cat_lang:
  "c # w \<in> cat_lang A B \<longleftrightarrow>
     (\<exists>u v. w = u @ v \<and> c # u \<in> A \<and> v \<in> B) \<or> ([] \<in> A \<and> c # w \<in> B)"
  by (auto simp: cat_lang_def Cons_eq_append_conv)

lemma star_lang_Cons_split:
  assumes "x \<in> star_lang A" and "x = c # w"
  shows "\<exists>u v. w = u @ v \<and> c # u \<in> A \<and> v \<in> star_lang A"
  using assms
proof (induction arbitrary: w rule: star_lang.induct)
  case star_nil
  then show ?case by simp
next
  case (star_app u v)
  show ?case
  proof (cases u)
    case Nil
    with star_app show ?thesis by simp
  next
    case (Cons a u')
    with star_app.prems have "a = c" and "w = u' @ v" by simp_all
    with Cons star_app.hyps show ?thesis by blast
  qed
qed

lemma Cons_in_star_lang:
  "c # w \<in> star_lang A \<longleftrightarrow> (\<exists>u v. w = u @ v \<and> c # u \<in> A \<and> v \<in> star_lang A)"
proof
  assume "c # w \<in> star_lang A"
  then show "\<exists>u v. w = u @ v \<and> c # u \<in> A \<and> v \<in> star_lang A"
    by (rule star_lang_Cons_split) simp
next
  assume "\<exists>u v. w = u @ v \<and> c # u \<in> A \<and> v \<in> star_lang A"
  then obtain u v where "w = u @ v" "c # u \<in> A" "v \<in> star_lang A" by blast
  then show "c # w \<in> star_lang A"
    using star_app [of "c # u" A v] by simp
qed

lemma lang_step: "w \<in> lang (step c r) \<longleftrightarrow> c # w \<in> lang r"
proof (induction r arbitrary: w)
  case (Cat r s)
  then show ?case
    by (auto simp: Cons_in_cat_lang nullable_iff) (auto simp: cat_lang_def)
next
  case (Rep r)
  then show ?case
    by (auto simp: Cons_in_star_lang cat_lang_def)
qed auto

lemma accepts_iff: "accepts r s \<longleftrightarrow> s \<in> lang r"
  by (induction s arbitrary: r) (simp_all add: nullable_iff lang_step)


lemma char_between_same: "char_between a a c \<longleftrightarrow> c = a"
proof
  assume "char_between a a c"
  then have "(of_char c :: nat) = of_char a"
    unfolding char_between_def by linarith
  then show "c = a"
    by (simp add: of_char_eq_iff)
qed (simp add: char_between_def)

lemma cat_langI: "u \<in> A \<Longrightarrow> v \<in> B \<Longrightarrow> u @ v \<in> cat_lang A B"
  by (auto simp: cat_lang_def)

lemma cat_langE:
  assumes "w \<in> cat_lang A B"
  obtains u v where "w = u @ v" and "u \<in> A" and "v \<in> B"
  using assms by (auto simp: cat_lang_def)

lemma lang_literal: "lang (literal s) = {s}"
  by (induction s) (auto simp: cat_lang_def char_between_same)

lemma star_singletons:
  "star_lang {[c] | c. P c} = {s. list_all P s}"
proof (intro set_eqI iffI)
  fix s
  assume "s \<in> star_lang {[c] | c. P c}"
  then show "s \<in> {s. list_all P s}"
    by (induction rule: star_lang.induct) auto
next
  fix s
  assume "s \<in> {s. list_all P s}"
  then have "list_all P s" by simp
  then show "s \<in> star_lang {[c] | c. P c}"
  proof (induction s)
    case Nil
    show ?case by (rule star_nil)
  next
    case (Cons a s)
    then have "[a] \<in> {[c] | c. P c}" and "s \<in> star_lang {[c] | c. P c}"
      by simp_all
    then have "[a] @ s \<in> star_lang {[c] | c. P c}"
      by (rule star_app)
    then show ?case by simp
  qed
qed

lemma lang_one_or_more:
  "lang (one_or_more (Bracket rs)) = {s. s \<noteq> [] \<and> list_all (in_bracket rs) s}"
proof (intro set_eqI iffI)
  fix s
  assume "s \<in> lang (one_or_more (Bracket rs))"
  then show "s \<in> {s. s \<noteq> [] \<and> list_all (in_bracket rs) s}"
    by (auto simp: one_or_more_def cat_lang_def star_singletons)
next
  fix s
  assume "s \<in> {s. s \<noteq> [] \<and> list_all (in_bracket rs) s}"
  then obtain a t where s: "s = [a] @ t" and a: "in_bracket rs a"
    and t: "list_all (in_bracket rs) t"
    by (cases s) auto
  have "[a] \<in> lang (Bracket rs)" using a by simp
  moreover have "t \<in> lang (Rep (Bracket rs))" using t by (simp add: star_singletons)
  ultimately show "s \<in> lang (one_or_more (Bracket rs))"
    unfolding s one_or_more_def lang.simps(5) by (rule cat_langI)
qed

lemma lang_opt: "lang (Or Eps (Bracket rs)) = {s. length s \<le> 1 \<and> list_all (in_bracket rs) s}"
  by (auto simp: length_Suc_conv le_Suc_eq)

lemma lang_one_to_three:
  "lang (one_to_three (Bracket rs)) =
     {s. 1 \<le> length s \<and> length s \<le> 3 \<and> list_all (in_bracket rs) s}"
proof (intro set_eqI iffI)
  fix s
  assume "s \<in> lang (one_to_three (Bracket rs))"
  then show "s \<in> {s. 1 \<le> length s \<and> length s \<le> 3 \<and> list_all (in_bracket rs) s}"
    by (auto simp: one_to_three_def cat_lang_def)
next
  fix s
  assume "s \<in> {s. 1 \<le> length s \<and> length s \<le> 3 \<and> list_all (in_bracket rs) s}"
  then have len: "1 \<le> length s" "length s \<le> 3" and all: "list_all (in_bracket rs) s"
    by simp_all
  define u where "u = take 1 s"
  define v where "v = take 1 (drop 1 s)"
  define w where "w = drop 2 s"
  have s: "s = u @ (v @ w)"
    unfolding u_def v_def w_def
    by (metis append_take_drop_id drop_drop one_add_one)
  have "length u = 1" using len by (simp add: u_def)
  moreover have "list_all (in_bracket rs) u"
    using all unfolding u_def list_all_iff by (auto dest: in_set_takeD)
  ultimately have u: "u \<in> lang (Bracket rs)"
    by (auto simp: length_Suc_conv)
  have "length v \<le> 1" by (simp add: v_def)
  moreover have "list_all (in_bracket rs) v"
    using all unfolding v_def list_all_iff by (auto dest: in_set_takeD in_set_dropD)
  ultimately have v: "v \<in> lang (Or Eps (Bracket rs))"
    unfolding lang_opt by simp
  have "length w \<le> 1" using len by (simp add: w_def)
  moreover have "list_all (in_bracket rs) w"
    using all unfolding w_def list_all_iff by (auto dest: in_set_dropD)
  ultimately have w: "w \<in> lang (Or Eps (Bracket rs))"
    unfolding lang_opt by simp
  show "s \<in> lang (one_to_three (Bracket rs))"
    unfolding s one_to_three_def lang.simps(5)
    by (intro cat_langI u v w)
qed

lemma in_bracket_digit: "in_bracket [(CHR ''0'', CHR ''9'')] = is_digit"
  by (auto simp: is_digit_def fun_eq_iff)

lemma in_bracket_iface:
  "in_bracket [(CHR ''a'', CHR ''z''), (CHR ''A'', CHR ''Z''), (CHR ''0'', CHR ''9''),
               (CHR ''_'', CHR ''_''), (CHR ''-'', CHR ''-'')] = is_iface_char"
  by (auto simp: is_iface_char_def is_digit_def fun_eq_iff char_between_same)


lemma lang_octet: "lang (one_to_three digit) = {s. digits_1_3 s}"
  by (simp add: digit_def lang_one_to_three in_bracket_digit digits_1_3_def)

lemma lang_port: "lang (one_or_more digit) = {s. s \<noteq> [] \<and> list_all is_digit s}"
  by (simp add: digit_def lang_one_or_more in_bracket_digit)

lemma lang_iface: "lang (one_or_more iface_char) = {s. s \<noteq> [] \<and> list_all is_iface_char s}"
  by (simp add: iface_char_def lang_one_or_more in_bracket_iface)

lemma lang_locator_pattern_eq:
  "lang locator_pattern =
     cat_lang {''tcp/''}
       (cat_lang
          (cat_lang (cat_lang {s. digits_1_3 s} {''.''})
             (cat_lang (cat_lang {s. digits_1_3 s} {''.''})
                (cat_lang {s. digits_1_3 s} {''.''})))
          (cat_lang {s. digits_1_3 s}
             (cat_lang {'':''}
                (cat_lang {s. s \<noteq> [] \<and> list_all is_digit s}
                   (cat_lang {''#iface=''} {s. s \<noteq> [] \<and> list_all is_iface_char s})))))"
  unfolding locator_pattern_def exactly_three_def lang.simps(5) lang_literal lang_octet
    lang_port lang_iface
  by (rule refl)

lemma mem_cat_lang: "w \<in> cat_lang A B \<longleftrightarrow> (\<exists>u v. w = u @ v \<and> u \<in> A \<and> v \<in> B)"
  by (auto simp: cat_lang_def)

lemma lang_locator_pattern: "s \<in> lang locator_pattern \<longleftrightarrow> spec_locator s"
proof
  assume "s \<in> lang locator_pattern"
  then show "spec_locator s"
    unfolding lang_locator_pattern_eq spec_locator_def mem_cat_lang
    by (elim exE conjE) (simp, blast)
next
  assume "spec_locator s"
  then obtain a b c d port iface where
    s: "s = ''tcp/'' @ ((a @ ''.'') @ (b @ ''.'') @ (c @ ''.'')) @ d @ '':'' @ port
                @ ''#iface='' @ iface"
    and oct: "digits_1_3 a" "digits_1_3 b" "digits_1_3 c" "digits_1_3 d"
    and port: "port \<noteq> []" "list_all is_digit port"
    and iface: "iface \<noteq> []" "list_all is_iface_char iface"
    unfolding spec_locator_def by auto
  show "s \<in> lang locator_pattern"
    unfolding s lang_locator_pattern_eq
    using oct port iface
    by (intro cat_langI) simp_all
qed

lemma regexec_locator_pattern: "regexec locator_pattern url = 0 \<longleftrightarrow> spec_locator url"
  by (simp add: regexec_def REG_NOMATCH_def accepts_iff lang_locator_pattern)

section \<open>Startup\<close>

lemma wait_for_wifi_connected: "s_is_wifi_connected st \<Longrightarrow> wait_for_wifi st = Some st"
  by (subst wait_for_wifi.simps) simp

lemma wait_for_wifi_SomeD:
  assumes "wait_for_wifi st = Some st'"
  shows "s_is_wifi_connected st \<and> st' = st"
proof (rule wait_for_wifi.raw_induct [where P = "\<lambda>x y. s_is_wifi_connected x \<and> y = x"])
  show "wait_for_wifi st = Some st'" by fact
next
  fix f x y
  assume IH: "\<And>x y. f x = Some y \<Longrightarrow> s_is_wifi_connected x \<and> y = x"
    and eq: "(if \<not> s_is_wifi_connected x then f (emit [ESP_LOG LOG_dot] x) else Some x) = Some y"
  show "s_is_wifi_connected x \<and> y = x"
  proof (cases "s_is_wifi_connected x")
    case True
    with eq show ?thesis by simp
  next
    case False
    with eq have "f (emit [ESP_LOG LOG_dot] x) = Some y" by simp
    then have "s_is_wifi_connected (emit [ESP_LOG LOG_dot] x)" using IH by blast
    with False show ?thesis by (simp add: emit_def)
  qed
qed

lemma wait_for_wifi_blocked: "\<not> s_is_wifi_connected st \<Longrightarrow> wait_for_wifi st = None"
  using wait_for_wifi_SomeD [of st] by (cases "wait_for_wifi st") auto


lemma event_handler_link_effects:
  "list_all is_link_effect (trace st) \<Longrightarrow>
     list_all is_link_effect (trace (event_handler cfg event_base event_id st))"
  by (simp add: event_handler_def esp_wifi_connect_def emit_def xEventGroupSetBits_def Let_def)

lemma xEventGroupWaitBits_link_effects:
  "list_all is_link_effect (trace st) \<Longrightarrow>
     list_all is_link_effect (trace (snd (xEventGroupWaitBits cfg es bits st)))"
proof (induction es arbitrary: st)
  case Nil
  then show ?case by simp
next
  case (Cons e es)
  have "list_all is_link_effect (trace (event_handler cfg (fst e) (snd e) st))"
    using Cons.prems by (rule event_handler_link_effects)
  then have "list_all is_link_effect
      (trace (snd (xEventGroupWaitBits cfg es bits (event_handler cfg (fst e) (snd e) st))))"
    by (rule Cons.IH)
  with Cons.prems show ?case by simp
qed

lemma wifi_init_sta_link_effects:
  assumes "list_all is_link_effect (trace st)"
  shows "list_all is_link_effect (trace (snd (wifi_init_sta cfg env st)))"
proof -
  have "list_all is_link_effect (trace (st\<lparr>event_group_bits := 0\<rparr>))"
    using assms by simp
  then have "list_all is_link_effect
      (trace (snd (xEventGroupWaitBits cfg (link_events env) WIFI_CONNECTED_BIT
                     (st\<lparr>event_group_bits := 0\<rparr>))))"
    by (rule xEventGroupWaitBits_link_effects)
  then show ?thesis
    using assms
    by (auto simp: wifi_init_sta_def Let_def split: prod.splits)
qed

lemma wifi_init_sta_outcome:
  "fst (wifi_init_sta cfg env st) = Some out \<Longrightarrow> out = Abort \<or> out = Blocked"
  by (auto simp: wifi_init_sta_def Let_def split: if_splits prod.splits)

lemma link_effects_no_transport:
  "list_all is_link_effect es \<Longrightarrow> filter is_transport es = []"
  by (induction es) (auto elim: is_link_effect.elims)

lemma link_effects_no_config:
  "list_all is_link_effect es \<Longrightarrow> Zp_config_insert k v \<notin> set es"
  by (induction es) auto


lemma run_invalid:
  "fst (app_main invalid_locator_config example_env) = Exit (- 1)"
  by code_simp

lemma run_invalid_reaches:
  "Zp_config_insert ''Z_CONFIG_MODE_KEY'' (MODE invalid_locator_config)
     \<in> set (trace (snd (app_main invalid_locator_config example_env)))"
  by code_simp

lemma run_empty:
  "fst (app_main empty_locator_config example_env) = Exit (- 1)"
  by code_simp

lemma run_valid:
  "fst (app_main example_config example_env) = Idle"
  by code_simp


lemma is_valid_locator_logs: "list_all is_link_effect (snd (is_valid_locator url))"
  by (simp add: is_valid_locator_def Let_def)

text \<open>Where startup ends when the locator is rejected.\<close>

lemma app_main_invalid_locator:
  assumes "fst (is_valid_locator (LOCATOR cfg)) \<noteq> 0"
  shows "(\<exists>st. app_main cfg env = (Abort, st) \<and> list_all is_link_effect (trace st))
       \<or> (\<exists>st. app_main cfg env = (Blocked, st) \<and> list_all is_link_effect (trace st))
       \<or> (\<exists>st pre. app_main cfg env = (Exit (- 1), st)
             \<and> list_all is_link_effect pre
             \<and> trace st =
                 pre @ [Gpio_reset_pin LED_GPIO, Gpio_set_direction_output LED_GPIO,
                        Zp_config_insert ''Z_CONFIG_MODE_KEY'' (MODE cfg)]
                   @ snd (is_valid_locator (LOCATOR cfg)) @ [ESP_LOG LOG_invalid_locator])"
proof -
  let ?st1 = "emit [ESP_LOG LOG_connecting_wifi] initial_state"
  have st1: "list_all is_link_effect (trace ?st1)"
    by (simp add: emit_def initial_state_def)
  have st0: "list_all is_link_effect (trace initial_state)"
    by (simp add: initial_state_def)
  let ?erase = "nvs_flash_init_ret env = ESP_ERR_NVS_NO_FREE_PAGES
                \<or> nvs_flash_init_ret env = ESP_ERR_NVS_NEW_VERSION_FOUND"
  let ?nvs_abort = "(?erase \<and> nvs_flash_erase_ret env \<noteq> ESP_OK)
     \<or> (if ?erase then nvs_flash_init_again_ret env else nvs_flash_init_ret env) \<noteq> ESP_OK"
  show ?thesis
  proof (cases ?nvs_abort)
    case True
    then have "app_main cfg env = (Abort, initial_state)"
      by (auto simp: app_main_def Let_def)
    with st0 show ?thesis by blast
  next
    case nvs: False
    obtain res st2 where w: "wifi_init_sta cfg env ?st1 = (res, st2)"
      by (cases "wifi_init_sta cfg env ?st1")
    have st2: "list_all is_link_effect (trace st2)"
      using wifi_init_sta_link_effects [OF st1, of cfg env] w by simp
    show ?thesis
    proof (cases res)
      case (Some out)
      with nvs w have "app_main cfg env = (out, st2)"
        by (auto simp: app_main_def Let_def)
      moreover have "out = Abort \<or> out = Blocked"
        using wifi_init_sta_outcome [of cfg env ?st1 out] w Some by simp
      ultimately show ?thesis using st2 by blast
    next
      case returned: None
      show ?thesis
      proof (cases "wait_for_wifi st2")
        case None
        with nvs w returned have "app_main cfg env = (Blocked, st2)"
          by (auto simp: app_main_def Let_def)
        with st2 show ?thesis by blast
      next
        case (Some st3)
        then have st3: "st3 = st2"
          using wait_for_wifi_SomeD by blast
        obtain valid logged where v: "is_valid_locator (LOCATOR cfg) = (valid, logged)"
          by (cases "is_valid_locator (LOCATOR cfg)")
        with assms have bad: "valid \<noteq> 0" by simp
        let ?end = "emit [ESP_LOG LOG_invalid_locator]
           (emit logged
             (emit [Zp_config_insert ''Z_CONFIG_MODE_KEY'' (MODE cfg)]
               (gpio_init (emit [ESP_LOG LOG_wifi_established] st2))))"
        have run: "app_main cfg env = (Exit (- 1), ?end)"
          using nvs w returned Some st3 v bad by (auto simp: app_main_def Let_def)
        have "trace ?end =
                 (trace st2 @ [ESP_LOG LOG_wifi_established])
                   @ [Gpio_reset_pin LED_GPIO, Gpio_set_direction_output LED_GPIO,
                        Zp_config_insert ''Z_CONFIG_MODE_KEY'' (MODE cfg)]
                   @ snd (is_valid_locator (LOCATOR cfg)) @ [ESP_LOG LOG_invalid_locator]"
          by (simp add: emit_def gpio_init_def v)
        moreover have "list_all is_link_effect (trace st2 @ [ESP_LOG LOG_wifi_established])"
          using st2 by simp
        ultimately show ?thesis using run by blast
      qed
    qed
  qed
qed

text \<open>
  Claim C8. When the validator rejects the locator, startup makes no call into the
  transport (no session open, no subscriber or publisher declaration, no publish) in
  any environment, and never reaches the idle loop; once it has got as far as
  configuring the session it terminates with exit status -1 right after logging the
  invalid locator.
\<close>

theorem invalid_locator_never_opens_session:
  assumes "fst (is_valid_locator (LOCATOR cfg)) \<noteq> 0"
  shows "transport_calls (snd (app_main cfg env)) = []
       \<and> fst (app_main cfg env) \<in> {Exit (- 1), Abort, Blocked}
       \<and> (Zp_config_insert ''Z_CONFIG_MODE_KEY'' (MODE cfg)
            \<in> set (trace (snd (app_main cfg env)))
          \<longrightarrow> fst (app_main cfg env) = Exit (- 1)
            \<and> last (trace (snd (app_main cfg env))) = ESP_LOG LOG_invalid_locator)"
proof -
  note logs = is_valid_locator_logs [of "LOCATOR cfg"]
  from app_main_invalid_locator [OF assms, of env]
  consider (early) out st where "app_main cfg env = (out, st)" "out = Abort \<or> out = Blocked"
      "list_all is_link_effect (trace st)"
    | (exit) st pre where "app_main cfg env = (Exit (- 1), st)" "list_all is_link_effect pre"
      "trace st = pre @ [Gpio_reset_pin LED_GPIO, Gpio_set_direction_output LED_GPIO,
                        Zp_config_insert ''Z_CONFIG_MODE_KEY'' (MODE cfg)]
                   @ snd (is_valid_locator (LOCATOR cfg)) @ [ESP_LOG LOG_invalid_locator]"
    by blast
  then show ?thesis
  proof cases
    case early
    then show ?thesis
      using link_effects_no_transport [of "trace st"]
        link_effects_no_config [of "trace st" "''Z_CONFIG_MODE_KEY''" "MODE cfg"]
      by (auto simp: transport_calls_def)
  next
    case exit
    then show ?thesis
      using link_effects_no_transport [of pre] link_effects_no_transport [OF logs]
      by (simp add: transport_calls_def)
  qed
qed

theorem invalid_locator_never_opens_session_witness:
  "fst (is_valid_locator (LOCATOR invalid_locator_config)) \<noteq> 0
   \<and> Zp_config_insert ''Z_CONFIG_MODE_KEY'' (MODE invalid_locator_config)
        \<in> set (trace (snd (app_main invalid_locator_config example_env)))
   \<and> transport_calls (snd (app_main invalid_locator_config example_env)) = []
   \<and> fst (app_main invalid_locator_config example_env) = Exit (- 1)
   \<and> last (trace (snd (app_main invalid_locator_config example_env)))
       = ESP_LOG LOG_invalid_locator"
proof -
  have h: "fst (is_valid_locator (LOCATOR invalid_locator_config)) \<noteq> 0"
    by code_simp
  show ?thesis
    using h run_invalid_reaches
      invalid_locator_never_opens_session [OF h, of example_env]
    by blast
qed

text \<open>
  Claim C4. The empty locator is to be accepted and startup is to go on without a
  connect or listen endpoint. \<open>is_valid_locator\<close> matches the empty string against the
  pattern like any other and returns \<open>REG_NOMATCH\<close>, so \<open>app_main\<close> exits with status -1
  before the test for the empty locator is reached; the same environment with a
  well-formed locator reaches the idle loop.
\<close>

theorem empty_locator_is_rejected:
  "is_valid_locator [] = (REG_NOMATCH, [ESP_LOG LOG_regex_match_error])
   \<and> fst (app_main empty_locator_config example_env) = Exit (- 1)
   \<and> fst (app_main example_config example_env) = Idle"
  using run_empty run_valid
  by (simp add: is_valid_locator_def regexec_def REG_NOMATCH_def locator_pattern_def)


lemma locator_examples:
  "fst (is_valid_locator ''tcp/192.168.1.10:7447#iface=eth0'') = 0"
  "fst (is_valid_locator ''tcp/999.999.999.999:7447#iface=eth0'') = 0"
  "fst (is_valid_locator ''tcp/192.168.1.10:7447'') \<noteq> 0"
  "fst (is_valid_locator ''192.168.1.10:7447#iface=eth0'') \<noteq> 0"
  "fst (is_valid_locator ''tcp/192.168.1:7447#iface=eth0'') \<noteq> 0"
  "fst (is_valid_locator ''tcp/192.168.1.10#iface=eth0'') \<noteq> 0"
  "fst (is_valid_locator ''see tcp/192.168.1.10:7447#iface=eth0 '') \<noteq> 0"
  by code_simp+

text \<open>
  Claim C5. For a non-empty locator, validation succeeds exactly when the whole string
  has the shape of the specification's pattern. Octets above 255 pass; strings without
  the interface marker, the protocol, an octet or the port, and strings that only
  contain a match, are rejected.
\<close>

theorem is_valid_locator_matches_pattern:
  "(url \<noteq> [] \<longrightarrow> (fst (is_valid_locator url) = 0 \<longleftrightarrow> spec_locator url))
   \<and> fst (is_valid_locator ''tcp/192.168.1.10:7447#iface=eth0'') = 0
   \<and> fst (is_valid_locator ''tcp/999.999.999.999:7447#iface=eth0'') = 0
   \<and> fst (is_valid_locator ''tcp/192.168.1.10:7447'') \<noteq> 0
   \<and> fst (is_valid_locator ''192.168.1.10:7447#iface=eth0'') \<noteq> 0
   \<and> fst (is_valid_locator ''tcp/192.168.1:7447#iface=eth0'') \<noteq> 0
   \<and> fst (is_valid_locator ''tcp/192.168.1.10#iface=eth0'') \<noteq> 0
   \<and> fst (is_valid_locator ''see tcp/192.168.1.10:7447#iface=eth0 '') \<noteq> 0"
proof -
  have "fst (is_valid_locator url) = 0 \<longleftrightarrow> spec_locator url"
    by (simp add: is_valid_locator_def Let_def regexec_locator_pattern)
  then show ?thesis
    using locator_examples by blast
qed

theorem is_valid_locator_matches_pattern_witness:
  "''tcp/192.168.1.10:7447#iface=eth0'' \<noteq> []
   \<and> fst (is_valid_locator ''tcp/192.168.1.10:7447#iface=eth0'') = 0
   \<and> spec_locator ''tcp/192.168.1.10:7447#iface=eth0''
   \<and> ''tcp/192.168.1.10:7447'' \<noteq> []
   \<and> fst (is_valid_locator ''tcp/192.168.1.10:7447'') \<noteq> 0
   \<and> \<not> spec_locator ''tcp/192.168.1.10:7447''"
  using is_valid_locator_matches_pattern [of "''tcp/192.168.1.10:7447#iface=eth0''"]
    is_valid_locator_matches_pattern [of "''tcp/192.168.1.10:7447''"]
  by auto

end
